theory Spec2Isabelle
  imports Main
begin

section \<open>JavaScript values\<close>

text \<open>
  The schema compiler of \<^verbatim>\<open>src/middlewares/schema.ts\<close> inspects untyped configuration
  values: it tests them for truthiness, for being arrays, for being the literal
  \<^verbatim>\<open>true\<close>, and for being \<^verbatim>\<open>null\<close> or \<^verbatim>\<open>undefined\<close>. The values are
  therefore modelled as a datatype. An object is the list of its own enumerable
  properties in key iteration order (the order of \<^verbatim>\<open>Object.keys\<close>); a function value
  is opaque and carries an identifier only.
\<close>

datatype jsval =
    JUndefined
  | JNull
  | JBool bool
  | JNum int
  | JStr string
  | JArr "jsval list"
  | JObj "(string \<times> jsval) list"
  | JFun nat

type_synonym js_object = "(string \<times> jsval) list"

text \<open>Truthiness, as used by \<^verbatim>\<open>&&\<close>, \<^verbatim>\<open>if (...)\<close> and \<^verbatim>\<open>.filter(Boolean)\<close>.\<close>

fun truthy :: "jsval \<Rightarrow> bool" where
  "truthy JUndefined = False"
| "truthy JNull = False"
| "truthy (JBool b) = b"
| "truthy (JNum n) = (n \<noteq> 0)"
| "truthy (JStr s) = (s \<noteq> [])"
| "truthy (JArr xs) = True"
| "truthy (JObj kvs) = True"
| "truthy (JFun f) = True"

text \<open>\<^verbatim>\<open>Array.isArray(v)\<close>.\<close>

fun isArray :: "jsval \<Rightarrow> bool" where
  "isArray (JArr xs) = True"
| "isArray v = False"

text \<open>\<^verbatim>\<open>Object.keys(o)\<close> and \<^verbatim>\<open>o[k]\<close> on an object; a missing key reads as \<^verbatim>\<open>undefined\<close>.\<close>

definition object_keys :: "js_object \<Rightarrow> string list" where
  "object_keys obj = map fst obj"

definition get_prop :: "js_object \<Rightarrow> string \<Rightarrow> jsval" where
  "get_prop obj k = (case map_of obj k of None \<Rightarrow> JUndefined | Some v \<Rightarrow> v)"

text \<open>
  \<^verbatim>\<open>methodCfg.options\<close>, \<^verbatim>\<open>methodCfg.if\<close>, \<^verbatim>\<open>methodCfg.negated\<close>,
  \<^verbatim>\<open>methodCfg.errorMessage\<close> and \<^verbatim>\<open>methodCfg.bail\<close> are read from a rule
  configuration that has passed the truthiness filter, so the read never fails. None of
  these five names is a built-in property of a boolean, number, string, array or function,
  so on anything but an object the read yields \<^verbatim>\<open>undefined\<close>.
\<close>

fun cfg_prop :: "jsval \<Rightarrow> string \<Rightarrow> jsval" where
  "cfg_prop (JObj kvs) k = get_prop kvs k"
| "cfg_prop v k = JUndefined"

section \<open>The validation chain (collaborator)\<close>

text \<open>
  Modelled from the spec: the chain builder of \<^verbatim>\<open>../chain\<close> and the constructor
  \<^verbatim>\<open>check\<close> of \<^verbatim>\<open>./check\<close> are imported by the module and are not part of it. The
  spec describes the chain as a constructor taking (field name, locations, general error
  message) whose operations register steps to run later and execute nothing. A chain is
  therefore a record of the three constructor arguments and the trace of the calls made
  on it, oldest first. Each entry of the trace records the call site of
  \<^verbatim>\<open>checkSchema\<close> that made the call: \<^verbatim>\<open>chain.if(c)\<close>, \<^verbatim>\<open>chain.not()\<close>,
  \<^verbatim>\<open>chain[method](...options)\<close>, \<^verbatim>\<open>chain.withMessage(m)\<close> and \<^verbatim>\<open>chain.bail()\<close>.
\<close>

datatype chain_call =
    ChainIf jsval
  | ChainNot
  | ChainMethod string "jsval list"
  | ChainWithMessage jsval
  | ChainBail

record chain =
  field_name :: string
  locations :: "jsval list"
  message :: jsval
  calls :: "chain_call list"

definition check :: "string \<Rightarrow> jsval list \<Rightarrow> jsval \<Rightarrow> chain" where
  "check fld locs msg = \<lparr>field_name = fld, locations = locs, message = msg, calls = []\<rparr>"

definition chain_if :: "jsval \<Rightarrow> chain \<Rightarrow> chain" where
  "chain_if c ch = ch\<lparr>calls := calls ch @ [ChainIf c]\<rparr>"

definition chain_not :: "chain \<Rightarrow> chain" where
  "chain_not ch = ch\<lparr>calls := calls ch @ [ChainNot]\<rparr>"

definition chain_withMessage :: "jsval \<Rightarrow> chain \<Rightarrow> chain" where
  "chain_withMessage m ch = ch\<lparr>calls := calls ch @ [ChainWithMessage m]\<rparr>"

definition chain_bail :: "chain \<Rightarrow> chain" where
  "chain_bail ch = ch\<lparr>calls := calls ch @ [ChainBail]\<rparr>"

text \<open>
  What the module asks of the chain's method set is taken as a parameter:
  \<^item> \<open>has_method m\<close> is \<^verbatim>\<open>typeof chain[m] === 'function'\<close>;
  \<^item> \<open>in_validators m\<close> is \<^verbatim>\<open>m in ValidatorsImpl.prototype\<close>;
  \<^item> \<open>chain_run ch req\<close> is the outcome of the promise \<^verbatim>\<open>ch.run(req)\<close>: rejected with
    an error (\<open>Inl\<close>) or fulfilled with a result (\<open>Inr\<close>).
\<close>

record ('req, 'err, 'res) chain_api =
  has_method :: "string \<Rightarrow> bool"
  in_validators :: "string \<Rightarrow> bool"
  chain_run :: "chain \<Rightarrow> 'req \<Rightarrow> 'err + 'res"

datatype error = TypeError string

text \<open>
  The dynamic call \<^verbatim>\<open>(chain[method] as any)(...options)\<close>. Calling a property that is
  not a function raises a \<^verbatim>\<open>TypeError\<close>.
\<close>

definition chain_invoke ::
  "('req, 'err, 'res) chain_api \<Rightarrow> string \<Rightarrow> jsval list \<Rightarrow> chain \<Rightarrow> error + chain" where
  "chain_invoke api method args ch =
     (if has_method api method
      then Inr (ch\<lparr>calls := calls ch @ [ChainMethod method args]\<rparr>)
      else Inl (TypeError (''chain.'' @ method @ '' is not a function'')))"

section \<open>Location resolution\<close>

definition validLocations :: "jsval list" where
  "validLocations = [JStr ''body'', JStr ''cookies'', JStr ''headers'', JStr ''params'', JStr ''query'']"

definition protectedNames :: "string list" where
  "protectedNames = [''errorMessage'', ''in'']"

text \<open>
  \<^verbatim>\<open>ensureLocations(config, defaults)\<close>. \<^verbatim>\<open>validLocations.includes(location)\<close> compares
  with strings only, where equality of values is equality of the strings.
\<close>

definition ensureLocations :: "js_object \<Rightarrow> jsval list \<Rightarrow> jsval list" where
  "ensureLocations config defaults =
     (let locations = (case get_prop config ''in'' of
                         JArr xs \<Rightarrow> xs
                       | v \<Rightarrow> filter truthy [v]);
          actualLocations = (if length locations \<noteq> 0 then locations else defaults)
      in filter (\<lambda>location. location \<in> set validLocations) actualLocations)"

section \<open>Rule dispatch\<close>

text \<open>
  Lines 88 to 91: \<^verbatim>\<open>options = methodCfg === true ? [] : methodCfg.options ?? []\<close>,
  then a value that is neither nullish nor an array is wrapped into a one-element array.
  After \<^verbatim>\<open>??\<close> the value is never nullish, so the result is always an array; it is
  given here as the list of arguments that the spread \<^verbatim>\<open>...options\<close> passes.
\<close>

definition resolve_options :: "jsval \<Rightarrow> jsval list" where
  "resolve_options methodCfg =
     (if methodCfg = JBool True then []
      else (case cfg_prop methodCfg ''options'' of
              JUndefined \<Rightarrow> []
            | JNull \<Rightarrow> []
            | JArr xs \<Rightarrow> xs
            | v \<Rightarrow> [v]))"

definition isValidatorOptions ::
  "('req, 'err, 'res) chain_api \<Rightarrow> string \<Rightarrow> jsval \<Rightarrow> bool" where
  "isValidatorOptions api method methodCfg \<longleftrightarrow>
     methodCfg \<noteq> JBool True \<and> in_validators api method"

definition warning :: "string \<Rightarrow> string" where
  "warning method =
     ''express-validator: a validator/sanitizer with name '' @ method @ '' does not exist''"

text \<open>
  The body of the \<^verbatim>\<open>forEach\<close> of lines 77 to 110, on the pair of the chain under
  construction and the console (the warnings printed so far).
\<close>

definition dispatch ::
  "('req, 'err, 'res) chain_api \<Rightarrow> js_object \<Rightarrow> string \<Rightarrow> chain \<times> string list
     \<Rightarrow> error + (chain \<times> string list)" where
  "dispatch api config method st =
     (case st of (ch, console) \<Rightarrow>
        if \<not> has_method api method then Inr (ch, console @ [warning method])
        else
          let methodCfg = get_prop config method;
              options = resolve_options methodCfg;
              ch1 = (if isValidatorOptions api method methodCfg \<and> truthy (cfg_prop methodCfg ''if'')
                     then chain_if (cfg_prop methodCfg ''if'') ch else ch);
              ch2 = (if isValidatorOptions api method methodCfg \<and> truthy (cfg_prop methodCfg ''negated'')
                     then chain_not ch1 else ch1)
          in (case chain_invoke api method options ch2 of
                Inl e \<Rightarrow> Inl e
              | Inr ch3 \<Rightarrow>
                  let ch4 = (if isValidatorOptions api method methodCfg
                                  \<and> truthy (cfg_prop methodCfg ''errorMessage'')
                             then chain_withMessage (cfg_prop methodCfg ''errorMessage'') ch3 else ch3);
                      ch5 = (if isValidatorOptions api method methodCfg \<and> truthy (cfg_prop methodCfg ''bail'')
                             then chain_bail ch4 else ch4)
                  in Inr (ch5, console)))"

text \<open>\<^verbatim>\<open>Array.prototype.forEach\<close> with a callback that may throw.\<close>

fun forEach :: "('a \<Rightarrow> 's \<Rightarrow> error + 's) \<Rightarrow> 'a list \<Rightarrow> 's \<Rightarrow> error + 's" where
  "forEach f [] s = Inr s"
| "forEach f (x # xs) s = (case f x s of Inl e \<Rightarrow> Inl e | Inr s' \<Rightarrow> forEach f xs s')"

text \<open>The filter of lines 74 to 76.\<close>

definition rule_filter :: "js_object \<Rightarrow> string \<Rightarrow> bool" where
  "rule_filter config method \<longleftrightarrow>
     truthy (get_prop config method) \<and> method \<notin> set protectedNames"

text \<open>The callback of \<^verbatim>\<open>Object.keys(schema).map\<close>, lines 69 to 113, for one schema entry.\<close>

definition field_chain ::
  "('req, 'err, 'res) chain_api \<Rightarrow> jsval list \<Rightarrow> string \<times> js_object \<Rightarrow> string list
     \<Rightarrow> error + (chain \<times> string list)" where
  "field_chain api defaultLocations entry console =
     (case entry of (fld, config) \<Rightarrow>
        let ch = check fld (ensureLocations config defaultLocations) (get_prop config ''errorMessage'')
        in forEach (dispatch api config) (filter (rule_filter config) (object_keys config)) (ch, console))"

text \<open>\<^verbatim>\<open>Array.prototype.map\<close> with a callback that may throw and that prints to the console.\<close>

fun array_map ::
  "('a \<Rightarrow> string list \<Rightarrow> error + ('b \<times> string list)) \<Rightarrow> 'a list \<Rightarrow> string list
     \<Rightarrow> error + ('b list \<times> string list)" where
  "array_map f [] console = Inr ([], console)"
| "array_map f (x # xs) console =
     (case f x console of
        Inl e \<Rightarrow> Inl e
      | Inr (y, console') \<Rightarrow>
          (case array_map f xs console' of
             Inl e \<Rightarrow> Inl e
           | Inr (ys, console'') \<Rightarrow> Inr (y # ys, console'')))"

section \<open>The batch runner\<close>

text \<open>
  \<^verbatim>\<open>Promise.all\<close>, from the language's definition: the promise of index \<open>i\<close> settles
  with the outcome \<open>outcomes ! i\<close>, and \<open>order\<close> lists the indices in the order in which
  the promises settle. A fulfilled promise stores its value in the slot of its own index;
  the first rejection rejects the whole. The combined promise is fulfilled once every
  slot is filled, and stays pending (\<open>None\<close>) when some promise never settles.
\<close>

fun settle ::
  "('err + 'res) list \<Rightarrow> nat list \<Rightarrow> 'res option list \<Rightarrow> ('err + 'res list) option" where
  "settle outcomes [] slots =
     (case those slots of None \<Rightarrow> None | Some vs \<Rightarrow> Some (Inr vs))"
| "settle outcomes (i # order) slots =
     (if i < length outcomes
      then (case outcomes ! i of
              Inl e \<Rightarrow> Some (Inl e)
            | Inr v \<Rightarrow> settle outcomes order (slots[i := Some v]))
      else settle outcomes order slots)"

definition promise_all :: "('err + 'res) list \<Rightarrow> nat list \<Rightarrow> ('err + 'res list) option" where
  "promise_all outcomes order = settle outcomes order (replicate (length outcomes) None)"

text \<open>
  The value \<^verbatim>\<open>checkSchema\<close> returns is the array of chains itself, with the property
  \<^verbatim>\<open>run\<close> added to it by \<^verbatim>\<open>Object.assign\<close>: one record of the array's items and the
  attached function. The function takes the settling order of the run as well, which the
  scheduler chooses.
\<close>

record ('req, 'err, 'res) schema_chains =
  items :: "chain list"
  run :: "nat list \<Rightarrow> 'req \<Rightarrow> ('err + 'res list) option"

definition run_closure ::
  "('req, 'err, 'res) chain_api \<Rightarrow> chain list \<Rightarrow> nat list \<Rightarrow> 'req \<Rightarrow> ('err + 'res list) option" where
  "run_closure api chs order req =
     promise_all (map (\<lambda>ch. chain_run api ch req) chs) order"

definition assign_run ::
  "('req, 'err, 'res) chain_api \<Rightarrow> chain list \<Rightarrow> ('req, 'err, 'res) schema_chains" where
  "assign_run api chs = \<lparr>items = chs, run = run_closure api chs\<rparr>"

section \<open>checkSchema\<close>

text \<open>
  A schema is the list of its entries in key iteration order; every entry's configuration
  is an object, as the type \<^verbatim>\<open>Record<string, ParamSchema>\<close> says. The second argument
  is optional: left out, it is \<^verbatim>\<open>validLocations\<close>. The result is \<open>Inl\<close> when the call
  throws, and otherwise the returned collection together with the warnings printed.
\<close>

type_synonym schema = "(string \<times> js_object) list"

definition checkSchema ::
  "('req, 'err, 'res) chain_api \<Rightarrow> schema \<Rightarrow> jsval list option
     \<Rightarrow> error + (('req, 'err, 'res) schema_chains \<times> string list)" where
  "checkSchema api schema defaultLocations_arg =
     (let defaultLocations = (case defaultLocations_arg of None \<Rightarrow> validLocations | Some d \<Rightarrow> d)
      in case array_map (field_chain api defaultLocations) schema [] of
           Inl e \<Rightarrow> Inl e
         | Inr (chs, console) \<Rightarrow> Inr (assign_run api chs, console))"

section \<open>The compiled chain in closed form\<close>

text \<open>
  The loops of \<^verbatim>\<open>checkSchema\<close> are described below without state: the calls that one
  dispatched rule appends, the keys that are dispatched to a chain method, the keys that
  are warned about, and the finished chain of one schema entry. These descriptions are
  not the embedding of the source; they are proved equal to it (\<open>dispatch_known\<close>,
  \<open>forEach_dispatch\<close>, \<open>field_chain_eq\<close>, \<open>checkSchema_eq\<close>) and serve the proofs.
\<close>

definition rule_calls ::
  "('req, 'err, 'res) chain_api \<Rightarrow> js_object \<Rightarrow> string \<Rightarrow> chain_call list" where
  "rule_calls api config m =
     (let methodCfg = get_prop config m; v = isValidatorOptions api m methodCfg
      in (if v \<and> truthy (cfg_prop methodCfg ''if'') then [ChainIf (cfg_prop methodCfg ''if'')] else []) @
         (if v \<and> truthy (cfg_prop methodCfg ''negated'') then [ChainNot] else []) @
         [ChainMethod m (resolve_options methodCfg)] @
         (if v \<and> truthy (cfg_prop methodCfg ''errorMessage'')
          then [ChainWithMessage (cfg_prop methodCfg ''errorMessage'')] else []) @
         (if v \<and> truthy (cfg_prop methodCfg ''bail'') then [ChainBail] else []))"

definition rule_names :: "('req, 'err, 'res) chain_api \<Rightarrow> js_object \<Rightarrow> string list" where
  "rule_names api config =
     filter (has_method api) (filter (rule_filter config) (object_keys config))"

definition unknown_names :: "('req, 'err, 'res) chain_api \<Rightarrow> js_object \<Rightarrow> string list" where
  "unknown_names api config =
     filter (\<lambda>m. \<not> has_method api m) (filter (rule_filter config) (object_keys config))"

definition compiled_chain ::
  "('req, 'err, 'res) chain_api \<Rightarrow> jsval list \<Rightarrow> string \<times> js_object \<Rightarrow> chain" where
  "compiled_chain api d entry =
     \<lparr>field_name = fst entry,
      locations = ensureLocations (snd entry) d,
      message = get_prop (snd entry) ''errorMessage'',
      calls = concat (map (rule_calls api (snd entry)) (rule_names api (snd entry)))\<rparr>"

section \<open>Notions of the specification\<close>

text \<open>
  The location resolver in the words of the specification (section 4.1): normalise to a
  list by wrapping a single value and dropping an absent one; use the list when it is not
  empty and the defaults otherwise; filter against the five valid locations.
\<close>

definition spec_normalize :: "jsval \<Rightarrow> jsval list" where
  "spec_normalize v = (case v of JUndefined \<Rightarrow> [] | JArr xs \<Rightarrow> xs | x \<Rightarrow> [x])"

definition spec_locations :: "js_object \<Rightarrow> jsval list \<Rightarrow> jsval list" where
  "spec_locations config defaults =
     (let given = spec_normalize (get_prop config ''in'');
          chosen = (if given \<noteq> [] then given else defaults)
      in filter (\<lambda>l. l \<in> {JStr ''body'', JStr ''cookies'', JStr ''headers'', JStr ''params'',
                            JStr ''query''}) chosen)"

text \<open>
  The place of a call in the specification's modifier order: (a) the \<^verbatim>\<open>if\<close> gate,
  (b) the negation, (c) the rule's method, (d) the rule's message, (e) the bail marker.
\<close>

definition call_rank :: "chain_call \<Rightarrow> nat" where
  "call_rank c = (case c of ChainIf x \<Rightarrow> 0 | ChainNot \<Rightarrow> 1 | ChainMethod m args \<Rightarrow> 2
                   | ChainWithMessage x \<Rightarrow> 3 | ChainBail \<Rightarrow> 4)"

text \<open>
  A configuration without its unknown rules: the keys that are methods of the chain, and
  the reserved keys, are kept.
\<close>

definition known_rules_only :: "('req, 'err, 'res) chain_api \<Rightarrow> js_object \<Rightarrow> js_object" where
  "known_rules_only api config =
     filter (\<lambda>kv. has_method api (fst kv) \<or> fst kv \<in> set protectedNames) config"

section \<open>A small chain interface\<close>

text \<open>
  An instance of the interface for evaluating the compiler on concrete schemas: ten of
  the chain's methods, four of them on the validators' prototype, and a run that fulfils
  with a text naming the field and the request.
\<close>

definition sample_api :: "(string, string, string) chain_api" where
  "sample_api =
     \<lparr>has_method = (\<lambda>m. m \<in> set [''isInt'', ''isEmail'', ''trim'', ''toInt'', ''default'',
                                     ''optional'', ''if'', ''bail'', ''not'', ''withMessage'']),
      in_validators = (\<lambda>m. m \<in> set [''isInt'', ''isEmail'', ''not'', ''withMessage'']),
      chain_run = (\<lambda>ch req. Inr (field_name ch @ '' of '' @ req))\<rparr>"

section \<open>The loops against their closed forms\<close>

lemma dispatch_unknown:
  "\<not> has_method api m \<Longrightarrow> dispatch api config m (ch, w) = Inr (ch, w @ [warning m])"
  by (simp add: dispatch_def)

lemma dispatch_known:
  "has_method api m \<Longrightarrow>
     dispatch api config m (ch, w) = Inr (ch\<lparr>calls := calls ch @ rule_calls api config m\<rparr>, w)"
  by (simp add: dispatch_def rule_calls_def chain_invoke_def chain_if_def chain_not_def
      chain_withMessage_def chain_bail_def Let_def)

lemma forEach_dispatch:
  "forEach (dispatch api config) ms (ch, w) =
     Inr (ch\<lparr>calls := calls ch @ concat (map (rule_calls api config) (filter (has_method api) ms))\<rparr>,
          w @ map warning (filter (\<lambda>m. \<not> has_method api m) ms))"
proof (induction ms arbitrary: ch w)
  case Nil
  show ?case by simp
next
  case (Cons m ms)
  show ?case
  proof (cases "has_method api m")
    case True
    then show ?thesis by (simp add: dispatch_known Cons.IH)
  next
    case False
    then show ?thesis by (simp add: dispatch_unknown Cons.IH)
  qed
qed

lemma field_chain_eq:
  "field_chain api d entry w =
     Inr (compiled_chain api d entry, w @ map warning (unknown_names api (snd entry)))"
  by (cases entry)
     (simp add: field_chain_def forEach_dispatch compiled_chain_def check_def rule_names_def
        unknown_names_def)

lemma array_map_field_chain:
  "array_map (field_chain api d) schema w =
     Inr (map (compiled_chain api d) schema,
          w @ concat (map (\<lambda>entry. map warning (unknown_names api (snd entry))) schema))"
  by (induction schema arbitrary: w) (simp_all add: field_chain_eq)

lemma checkSchema_eq:
  "checkSchema api schema arg =
     Inr (assign_run api
            (map (compiled_chain api (case arg of None \<Rightarrow> validLocations | Some d \<Rightarrow> d)) schema),
          concat (map (\<lambda>entry. map warning (unknown_names api (snd entry))) schema))"
  by (simp add: checkSchema_def array_map_field_chain)

lemma validLocations_set:
  "set validLocations
     = {JStr ''body'', JStr ''cookies'', JStr ''headers'', JStr ''params'', JStr ''query''}"
  by (simp add: validLocations_def)

lemma rule_calls_methods:
  "ChainMethod n args \<in> set (rule_calls api config m)
     \<longleftrightarrow> n = m \<and> args = resolve_options (get_prop config m)"
  by (auto simp: rule_calls_def Let_def)

lemma rule_names_set:
  "m \<in> set (rule_names api config)
     \<longleftrightarrow> m \<in> set (object_keys config) \<and> rule_filter config m \<and> has_method api m"
  by (auto simp: rule_names_def)

lemma unknown_names_set:
  "m \<in> set (unknown_names api config)
     \<longleftrightarrow> m \<in> set (object_keys config) \<and> rule_filter config m \<and> \<not> has_method api m"
  by (auto simp: unknown_names_def)

lemma compiled_chain_methods:
  "ChainMethod m args \<in> set (calls (compiled_chain api d entry))
     \<longleftrightarrow> m \<in> set (rule_names api (snd entry)) \<and> args = resolve_options (get_prop (snd entry) m)"
  by (auto simp: compiled_chain_def rule_calls_methods)

lemma rule_filter_protected:
  "rule_filter config m \<Longrightarrow> m \<noteq> ''errorMessage'' \<and> m \<noteq> ''in'' \<and> truthy (get_prop config m)"
  by (simp add: rule_filter_def protectedNames_def)

lemma map_of_filter_key:
  "P k \<Longrightarrow> map_of (filter (\<lambda>kv. P (fst kv)) xs) k = map_of xs k"
  by (induction xs) auto

lemma get_prop_known:
  "has_method api k \<or> k \<in> set protectedNames \<Longrightarrow>
     get_prop (known_rules_only api config) k = get_prop config k"
  using map_of_filter_key [of "\<lambda>k. has_method api k \<or> k \<in> set protectedNames" k config]
  by (simp add: get_prop_def known_rules_only_def)

lemma object_keys_known:
  "object_keys (known_rules_only api config)
     = filter (\<lambda>k. has_method api k \<or> k \<in> set protectedNames) (object_keys config)"
  by (simp add: object_keys_def known_rules_only_def filter_map comp_def)

lemma rule_names_known: "rule_names api (known_rules_only api config) = rule_names api config"
proof -
  have "filter (has_method api) (filter (rule_filter (known_rules_only api config))
          (filter (\<lambda>k. has_method api k \<or> k \<in> set protectedNames) ks))
        = filter (has_method api) (filter (rule_filter config) ks)" for ks
    by (induction ks) (auto simp: rule_filter_def get_prop_known)
  then show ?thesis by (simp add: rule_names_def object_keys_known)
qed

lemma unknown_names_known: "unknown_names api (known_rules_only api config) = []"
  by (auto simp: unknown_names_def object_keys_known rule_filter_def filter_empty_conv)

lemma rule_calls_known:
  "has_method api m \<Longrightarrow> rule_calls api (known_rules_only api config) m = rule_calls api config m"
  by (simp add: rule_calls_def get_prop_known)

lemma ensureLocations_known:
  "ensureLocations (known_rules_only api config) d = ensureLocations config d"
  by (simp add: ensureLocations_def get_prop_known protectedNames_def)

lemma compiled_chain_known:
  "compiled_chain api d (fld, known_rules_only api config) = compiled_chain api d (fld, config)"
proof -
  have eq: "map (rule_calls api (known_rules_only api config)) (rule_names api config)
        = map (rule_calls api config) (rule_names api config)"
    by (rule map_cong) (simp_all add: rule_names_set rule_calls_known)
  show ?thesis
    by (simp add: compiled_chain_def rule_names_known ensureLocations_known get_prop_known
        protectedNames_def eq)
qed

section \<open>Settling in any order\<close>






text \<open>The first rejection, in settling order, rejects the whole.\<close>

lemma settle_rejected:
  "i < length outcomes \<Longrightarrow> outcomes ! i = Inl e \<Longrightarrow>
     settle outcomes (i # order) slots = Some (Inl e)"
  by simp

section \<open>Location resolution (claims C1 and C2)\<close>

text \<open>
  Claim C1, as amended. For every configuration whose \<^verbatim>\<open>in\<close> gives one or more
  locations (a list that is not empty, or a single truthy value), the resolved locations
  are the given ones that belong to the valid set, in the given order. So every location
  outside body, cookies, headers, params and query is excluded, and when all the given
  locations are invalid the resolved locations are empty: the defaults are not used. The
  chain of the field is built with exactly these locations.
\<close>

theorem given_locations_filtered_without_fallback:
  assumes "get_prop config ''in'' = JArr given \<or>
           (get_prop config ''in'' = v \<and> \<not> isArray v \<and> truthy v \<and> given = [v])"
    and "given \<noteq> []"
  shows "ensureLocations config d = filter (\<lambda>l. l \<in> set validLocations) given
         \<and> (\<forall>l. l \<notin> set validLocations \<longrightarrow> l \<notin> set (ensureLocations config d))
         \<and> ((\<forall>l \<in> set given. l \<notin> set validLocations) \<longrightarrow> ensureLocations config d = [])
         \<and> (\<forall>fld console ch console'.
               field_chain api d (fld, config) console = Inr (ch, console')
               \<longrightarrow> locations ch = ensureLocations config d)"
proof -
  have eq: "ensureLocations config d = filter (\<lambda>l. l \<in> set validLocations) given"
    using assms by (cases v) (auto simp: ensureLocations_def)
  have chain: "locations ch = ensureLocations config d"
    if "field_chain api d (fld, config) console = Inr (ch, console')" for fld console ch console'
    using that by (simp add: field_chain_eq compiled_chain_def) auto
  from eq chain show ?thesis by (auto simp: filter_empty_conv)
qed

text \<open>
  At \<^verbatim>\<open>in: ['session', 'query']\<close> the invalid location is dropped and the valid one
  kept; at \<^verbatim>\<open>in: 'session'\<close> nothing is left, whatever the defaults are.
\<close>

theorem given_locations_filtered_without_fallback_witness:
  "ensureLocations [(''in'', JArr [JStr ''session'', JStr ''query''])] [JStr ''body''] = [JStr ''query'']
   \<and> JStr ''session''
        \<notin> set (ensureLocations [(''in'', JArr [JStr ''session'', JStr ''query''])] [JStr ''body''])
   \<and> ensureLocations [(''in'', JStr ''session'')] [JStr ''body''] = []"
proof -
  have "ensureLocations [(''in'', JArr [JStr ''session'', JStr ''query''])] [JStr ''body'']
          = [JStr ''query'']
        \<and> JStr ''session''
             \<notin> set (ensureLocations [(''in'', JArr [JStr ''session'', JStr ''query''])] [JStr ''body''])"
    using given_locations_filtered_without_fallback
      [of "[(''in'', JArr [JStr ''session'', JStr ''query''])]" "[JStr ''session'', JStr ''query'']"
          JUndefined "[JStr ''body'']" sample_api]
    by (simp add: get_prop_def validLocations_def)
  moreover have "ensureLocations [(''in'', JStr ''session'')] [JStr ''body''] = []"
    using given_locations_filtered_without_fallback
      [of "[(''in'', JStr ''session'')]" "[JStr ''session'']" "JStr ''session''" "[JStr ''body'']"
          sample_api]
    by (simp add: get_prop_def validLocations_def)
  ultimately show ?thesis by simp
qed

text \<open>
  Claim C1 as it was stated fails: with every given location invalid, the resolved
  locations are empty and not the defaults. The field \<^verbatim>\<open>age\<close> with \<^verbatim>\<open>in: 'foo'\<close>
  and the defaults \<^verbatim>\<open>['body']\<close> gets a chain with no location at all.
\<close>

theorem invalid_locations_do_not_fall_back:
  "ensureLocations [(''in'', JStr ''foo'')] [JStr ''body''] = []
   \<and> ensureLocations [(''in'', JArr [JStr ''foo'', JStr ''bar''])] [JStr ''body''] \<noteq> [JStr ''body'']
   \<and> checkSchema sample_api [(''age'', [(''in'', JStr ''foo'')])] (Some [JStr ''body''])
       = Inr (assign_run sample_api
                [\<lparr>field_name = ''age'', locations = [], message = JUndefined, calls = []\<rparr>], [])"
  by (simp add: ensureLocations_def get_prop_def validLocations_def checkSchema_def field_chain_def
      check_def object_keys_def rule_filter_def protectedNames_def)

text \<open>
  Claim C2, as amended. Location resolution agrees with the algorithm of the
  specification (\<open>spec_locations\<close>: wrap a single value, drop an absent one, prefer a list
  that is not empty to the defaults, filter against the five valid locations) whenever
  \<^verbatim>\<open>in\<close> is absent, a list or a truthy single value. A single value that is falsy
  (\<^verbatim>\<open>null\<close>, \<^verbatim>\<open>false\<close>, \<^verbatim>\<open>0\<close>, the empty string) is dropped like an absent one and
  not wrapped, so the filtered defaults are used. No error is raised: \<^verbatim>\<open>checkSchema\<close>
  returns, and each chain carries the locations so resolved. Without its second argument
  \<^verbatim>\<open>checkSchema\<close> uses the five valid locations as the defaults.
\<close>

theorem ensureLocations_algorithm:
  "(get_prop config ''in'' = JUndefined \<or> isArray (get_prop config ''in'') \<or> truthy (get_prop config ''in'')
      \<longrightarrow> ensureLocations config d = spec_locations config d)
   \<and> (\<not> truthy (get_prop config ''in'') \<and> \<not> isArray (get_prop config ''in'')
      \<longrightarrow> ensureLocations config d = filter (\<lambda>l. l \<in> set validLocations) d)
   \<and> (\<exists>r console. checkSchema api schema arg = Inr (r, console)
         \<and> map locations (items r)
            = map (\<lambda>entry. ensureLocations (snd entry)
                              (case arg of None \<Rightarrow> validLocations | Some x \<Rightarrow> x)) schema)
   \<and> checkSchema api schema None
       = checkSchema api schema
           (Some [JStr ''body'', JStr ''cookies'', JStr ''headers'', JStr ''params'', JStr ''query''])"
proof -
  have a: "ensureLocations config d = spec_locations config d"
    if "get_prop config ''in'' = JUndefined \<or> isArray (get_prop config ''in'')
          \<or> truthy (get_prop config ''in'')"
    using that
    by (cases "get_prop config ''in''")
       (simp_all add: ensureLocations_def spec_locations_def spec_normalize_def validLocations_set)
  have b: "ensureLocations config d = filter (\<lambda>l. l \<in> set validLocations) d"
    if "\<not> truthy (get_prop config ''in'') \<and> \<not> isArray (get_prop config ''in'')"
    using that by (cases "get_prop config ''in''") (simp_all add: ensureLocations_def)
  have c: "\<exists>r console. checkSchema api schema arg = Inr (r, console)
         \<and> map locations (items r)
            = map (\<lambda>entry. ensureLocations (snd entry)
                              (case arg of None \<Rightarrow> validLocations | Some x \<Rightarrow> x)) schema"
    by (simp add: checkSchema_eq assign_run_def compiled_chain_def)
  have e: "checkSchema api schema None
       = checkSchema api schema
           (Some [JStr ''body'', JStr ''cookies'', JStr ''headers'', JStr ''params'', JStr ''query''])"
    by (simp add: checkSchema_def validLocations_def)
  from a b c e show ?thesis by blast
qed

text \<open>
  A valid single location is wrapped and kept; an invalid one leaves the location set
  empty; \<^verbatim>\<open>in: 0\<close> is dropped, and the defaults are filtered in its place.
\<close>

theorem ensureLocations_algorithm_witness:
  "ensureLocations [(''in'', JStr ''query'')] [JStr ''body''] = [JStr ''query'']
   \<and> ensureLocations [(''in'', JStr ''session'')] [JStr ''body''] = []
   \<and> ensureLocations [(''in'', JNum 0)] [JStr ''body'', JStr ''nowhere''] = [JStr ''body'']"
proof -
  have "ensureLocations [(''in'', JStr ''query'')] [JStr ''body''] = [JStr ''query'']"
    using ensureLocations_algorithm [of "[(''in'', JStr ''query'')]" "[JStr ''body'']" sample_api "[]" None]
    by (simp add: get_prop_def spec_locations_def spec_normalize_def)
  moreover have "ensureLocations [(''in'', JStr ''session'')] [JStr ''body''] = []"
    using ensureLocations_algorithm [of "[(''in'', JStr ''session'')]" "[JStr ''body'']" sample_api "[]" None]
    by (simp add: get_prop_def spec_locations_def spec_normalize_def)
  moreover have "ensureLocations [(''in'', JNum 0)] [JStr ''body'', JStr ''nowhere''] = [JStr ''body'']"
    using ensureLocations_algorithm
      [of "[(''in'', JNum 0)]" "[JStr ''body'', JStr ''nowhere'']" sample_api "[]" None]
    by (simp add: get_prop_def validLocations_def)
  ultimately show ?thesis by simp
qed

text \<open>
  Claim C2 as it was stated fails at a single value that is present and falsy. With
  \<^verbatim>\<open>in: ''\<close> and the defaults \<^verbatim>\<open>['body']\<close> the code resolves to \<^verbatim>\<open>['body']\<close>; the
  algorithm as stated wraps the value, finds the list not empty, and filters it to nothing.
\<close>

theorem falsy_in_uses_defaults:
  "ensureLocations [(''in'', JStr [])] [JStr ''body''] = [JStr ''body'']
   \<and> spec_locations [(''in'', JStr [])] [JStr ''body''] = []"
  by (simp add: ensureLocations_def spec_locations_def spec_normalize_def get_prop_def
      validLocations_def)

section \<open>Rule dispatch (claims C3, C4, C5 and C9)\<close>

text \<open>
  Claim C3. A rule that is a method of the chain appends calls to the chain and prints
  nothing. Where the rule's configuration holds a truthy \<^verbatim>\<open>if\<close>, \<^verbatim>\<open>negated\<close>,
  \<^verbatim>\<open>errorMessage\<close> or \<^verbatim>\<open>bail\<close>, that modifier is applied if and only if the rule's
  name is on the validators' prototype. For a name that is not (a sanitizer), the rule's
  own method is the only call, whatever keys the configuration holds.
\<close>

theorem modifiers_only_for_validators:
  assumes "has_method api m"
  shows "\<exists>new. dispatch api config m (ch, console) = Inr (ch\<lparr>calls := calls ch @ new\<rparr>, console)
     \<and> (truthy (cfg_prop (get_prop config m) ''if'')
          \<longrightarrow> (ChainIf (cfg_prop (get_prop config m) ''if'') \<in> set new \<longleftrightarrow> in_validators api m))
     \<and> (truthy (cfg_prop (get_prop config m) ''negated'')
          \<longrightarrow> (ChainNot \<in> set new \<longleftrightarrow> in_validators api m))
     \<and> (truthy (cfg_prop (get_prop config m) ''errorMessage'')
          \<longrightarrow> (ChainWithMessage (cfg_prop (get_prop config m) ''errorMessage'') \<in> set new
                \<longleftrightarrow> in_validators api m))
     \<and> (truthy (cfg_prop (get_prop config m) ''bail'')
          \<longrightarrow> (ChainBail \<in> set new \<longleftrightarrow> in_validators api m))
     \<and> (\<not> in_validators api m \<longrightarrow> new = [ChainMethod m (resolve_options (get_prop config m))])"
  apply (rule exI [of _ "rule_calls api config m"])
  apply (simp add: dispatch_known [OF assms])
  apply (cases "get_prop config m = JBool True")
   apply (simp add: rule_calls_def isValidatorOptions_def)
  apply (auto simp: rule_calls_def isValidatorOptions_def Let_def)
  done

text \<open>
  The sanitizer \<^verbatim>\<open>trim\<close>, configured with all four modifiers, is called alone.
\<close>

theorem modifiers_only_for_validators_witness:
  "dispatch sample_api
     [(''trim'', JObj [(''negated'', JBool True), (''bail'', JBool True), (''errorMessage'', JStr ''x''),
                        (''if'', JFun 0)])]
     ''trim'' (check ''name'' [] JUndefined, [])
   = Inr (\<lparr>field_name = ''name'', locations = [], message = JUndefined,
            calls = [ChainMethod ''trim'' []]\<rparr>, [])"
  using modifiers_only_for_validators [of sample_api "''trim''"
      "[(''trim'', JObj [(''negated'', JBool True), (''bail'', JBool True), (''errorMessage'', JStr ''x''),
                        (''if'', JFun 0)])]" "check ''name'' [] JUndefined" "[]"]
  by (auto simp: sample_api_def get_prop_def check_def resolve_options_def)

text \<open>
  Claim C4. The calls that one dispatched rule appends stand in the fixed order: the
  \<^verbatim>\<open>if\<close> gate, the negation, the rule's method with its resolved arguments, the rule's
  message, the bail marker. Whatever modifiers apply, the appended calls are strictly
  increasing in that order and contain the rule's method; for a validator whose four
  modifiers are all truthy they are exactly the five calls, in this order.
\<close>

theorem dispatch_call_order:
  assumes "has_method api m"
  shows "\<exists>new. dispatch api config m (ch, console) = Inr (ch\<lparr>calls := calls ch @ new\<rparr>, console)
     \<and> sorted_wrt (<) (map call_rank new)
     \<and> ChainMethod m (resolve_options (get_prop config m)) \<in> set new
     \<and> (in_validators api m
          \<and> truthy (cfg_prop (get_prop config m) ''if'')
          \<and> truthy (cfg_prop (get_prop config m) ''negated'')
          \<and> truthy (cfg_prop (get_prop config m) ''errorMessage'')
          \<and> truthy (cfg_prop (get_prop config m) ''bail'')
        \<longrightarrow> new = [ChainIf (cfg_prop (get_prop config m) ''if''),
                    ChainNot,
                    ChainMethod m (resolve_options (get_prop config m)),
                    ChainWithMessage (cfg_prop (get_prop config m) ''errorMessage''),
                    ChainBail])"
  apply (rule exI [of _ "rule_calls api config m"])
  apply (simp add: dispatch_known [OF assms])
  apply (cases "get_prop config m = JBool True")
   apply (simp add: rule_calls_def isValidatorOptions_def call_rank_def)
  apply (auto simp: rule_calls_def isValidatorOptions_def Let_def call_rank_def)
  done

text \<open>
  The validator \<^verbatim>\<open>isInt\<close> with its modifiers written in the reverse order in the
  configuration: the calls come out in the fixed order.
\<close>

theorem dispatch_call_order_witness:
  "dispatch sample_api
     [(''isInt'', JObj [(''bail'', JBool True), (''errorMessage'', JStr ''not a number''),
                         (''negated'', JBool True), (''if'', JFun 7),
                         (''options'', JObj [(''min'', JNum 1)])])]
     ''isInt'' (check ''age'' [JStr ''body''] JUndefined, [])
   = Inr (\<lparr>field_name = ''age'', locations = [JStr ''body''], message = JUndefined,
            calls = [ChainIf (JFun 7), ChainNot, ChainMethod ''isInt'' [JObj [(''min'', JNum 1)]],
                     ChainWithMessage (JStr ''not a number''), ChainBail]\<rparr>, [])"
  using dispatch_call_order [of sample_api "''isInt''"
     "[(''isInt'', JObj [(''bail'', JBool True), (''errorMessage'', JStr ''not a number''),
                         (''negated'', JBool True), (''if'', JFun 7),
                         (''options'', JObj [(''min'', JNum 1)])])]"
     "check ''age'' [JStr ''body''] JUndefined" "[]"]
  by (auto simp: sample_api_def get_prop_def check_def resolve_options_def)

text \<open>
  Claim C5, as amended. For a rule that is a chain method, the only dynamic call made is
  the rule's own method. A configuration that is the literal \<^verbatim>\<open>true\<close> gives that call
  with no argument and no modifier. For a configuration object, \<^verbatim>\<open>options\<close> set to a
  single value that is neither a list nor \<^verbatim>\<open>null\<close> nor \<^verbatim>\<open>undefined\<close> gives one
  argument equal to the value; \<^verbatim>\<open>options\<close> that is a list gives its elements as the
  arguments; \<^verbatim>\<open>options\<close> that is absent, \<^verbatim>\<open>undefined\<close> or \<^verbatim>\<open>null\<close> gives no
  argument.
\<close>

theorem dispatch_arguments:
  assumes "has_method api m"
  shows "\<exists>new. dispatch api config m (ch, console) = Inr (ch\<lparr>calls := calls ch @ new\<rparr>, console)
     \<and> (\<forall>n args. ChainMethod n args \<in> set new
            \<longleftrightarrow> n = m \<and> args = resolve_options (get_prop config m))
     \<and> (get_prop config m = JBool True \<longrightarrow> new = [ChainMethod m []])
     \<and> (\<forall>obj v. get_prop config m = JObj obj \<and> get_prop obj ''options'' = v
            \<and> \<not> isArray v \<and> v \<noteq> JNull \<and> v \<noteq> JUndefined
          \<longrightarrow> ChainMethod m [v] \<in> set new)
     \<and> (\<forall>obj xs. get_prop config m = JObj obj \<and> get_prop obj ''options'' = JArr xs
          \<longrightarrow> ChainMethod m xs \<in> set new)
     \<and> (\<forall>obj. get_prop config m = JObj obj
            \<and> (''options'' \<notin> set (object_keys obj) \<or> get_prop obj ''options'' = JUndefined
                 \<or> get_prop obj ''options'' = JNull)
          \<longrightarrow> ChainMethod m [] \<in> set new)"
proof -
  let ?new = "rule_calls api config m"
  have step: "dispatch api config m (ch, console) = Inr (ch\<lparr>calls := calls ch @ ?new\<rparr>, console)"
    by (rule dispatch_known [OF assms])
  have lit: "?new = [ChainMethod m []]" if "get_prop config m = JBool True"
    using that by (simp add: rule_calls_def isValidatorOptions_def resolve_options_def)
  have single: "ChainMethod m [v] \<in> set ?new"
    if "get_prop config m = JObj obj" "get_prop obj ''options'' = v" "\<not> isArray v" "v \<noteq> JNull"
      "v \<noteq> JUndefined" for obj v
    using that by (cases v) (simp_all add: rule_calls_methods resolve_options_def)
  have spread: "ChainMethod m xs \<in> set ?new"
    if "get_prop config m = JObj obj" "get_prop obj ''options'' = JArr xs" for obj xs
    using that by (simp add: rule_calls_methods resolve_options_def)
  have absent: "get_prop obj ''options'' = JUndefined" if "''options'' \<notin> set (object_keys obj)" for obj
    using that by (simp add: get_prop_def object_keys_def map_of_eq_None_iff [THEN iffD2])
  have none: "ChainMethod m [] \<in> set ?new"
    if "get_prop config m = JObj obj"
      "''options'' \<notin> set (object_keys obj) \<or> get_prop obj ''options'' = JUndefined
         \<or> get_prop obj ''options'' = JNull" for obj
    using that absent [of obj] by (auto simp: rule_calls_methods resolve_options_def)
  show ?thesis
    apply (rule exI [of _ ?new])
    apply (intro conjI allI impI)
         apply (rule step)
        apply (rule rule_calls_methods)
       apply (erule lit)
      apply (elim conjE, erule (4) single)
     apply (elim conjE, erule (1) spread)
    apply (elim conjE, erule (1) none)
    done
qed

text \<open>
  \<^verbatim>\<open>isInt: { options: { min: 1 } }\<close> calls \<^verbatim>\<open>isInt\<close> with the one object.
\<close>

theorem dispatch_arguments_witness:
  "dispatch sample_api
     [(''isInt'', JObj [(''options'', JObj [(''min'', JNum 1)])])]
     ''isInt'' (check ''age'' [] JUndefined, [])
   = Inr (\<lparr>field_name = ''age'', locations = [], message = JUndefined,
            calls = [ChainMethod ''isInt'' [JObj [(''min'', JNum 1)]]]\<rparr>, [])"
  using dispatch_arguments [of sample_api "''isInt''"
      "[(''isInt'', JObj [(''options'', JObj [(''min'', JNum 1)])])]"
      "check ''age'' [] JUndefined" "[]"]
  by (simp add: sample_api_def dispatch_def chain_invoke_def isValidatorOptions_def get_prop_def
      check_def resolve_options_def)

text \<open>
  Claim C5 as it was stated fails at \<^verbatim>\<open>options: null\<close>, a single value that is not a
  list: the method receives no argument, and not the one argument \<^verbatim>\<open>null\<close>. The schema
  \<^verbatim>\<open>{ nick: { default: { options: null } } }\<close> compiles to the call \<^verbatim>\<open>default()\<close>.
\<close>

theorem null_options_pass_no_argument:
  "checkSchema sample_api [(''nick'', [(''default'', JObj [(''options'', JNull)])])] (Some [JStr ''body''])
   = Inr (assign_run sample_api
            [\<lparr>field_name = ''nick'', locations = [JStr ''body''], message = JUndefined,
              calls = [ChainMethod ''default'' []]\<rparr>], [])"
  by (simp add: checkSchema_eq compiled_chain_def rule_names_def unknown_names_def rule_calls_def
      rule_filter_def object_keys_def get_prop_def protectedNames_def sample_api_def
      isValidatorOptions_def resolve_options_def ensureLocations_def validLocations_def)

text \<open>
  Claim C9. For a validator that is a chain method, each modifier is applied exactly when
  its value is truthy, and with that value: a gate \<^verbatim>\<open>if\<close> for a truthy \<^verbatim>\<open>if\<close>, a
  negation for a truthy \<^verbatim>\<open>negated\<close>, a message for a truthy \<^verbatim>\<open>errorMessage\<close>, a bail
  marker for a truthy \<^verbatim>\<open>bail\<close>. A key that is present with a falsy value applies nothing.
\<close>

theorem modifiers_need_truthy_values:
  assumes "has_method api m" and "in_validators api m"
  shows "\<exists>new. dispatch api config m (ch, console) = Inr (ch\<lparr>calls := calls ch @ new\<rparr>, console)
     \<and> (\<forall>c. ChainIf c \<in> set new
            \<longleftrightarrow> truthy (cfg_prop (get_prop config m) ''if'') \<and> c = cfg_prop (get_prop config m) ''if'')
     \<and> (ChainNot \<in> set new \<longleftrightarrow> truthy (cfg_prop (get_prop config m) ''negated''))
     \<and> (\<forall>msg. ChainWithMessage msg \<in> set new
            \<longleftrightarrow> truthy (cfg_prop (get_prop config m) ''errorMessage'')
                \<and> msg = cfg_prop (get_prop config m) ''errorMessage'')
     \<and> (ChainBail \<in> set new \<longleftrightarrow> truthy (cfg_prop (get_prop config m) ''bail''))"
  apply (rule exI [of _ "rule_calls api config m"])
  apply (simp add: dispatch_known [OF assms(1)])
  apply (cases "get_prop config m = JBool True")
   apply (simp add: rule_calls_def isValidatorOptions_def)
  apply (auto simp: rule_calls_def isValidatorOptions_def Let_def assms(2))
  done

text \<open>
  The validator \<^verbatim>\<open>isEmail\<close> with \<^verbatim>\<open>negated: false\<close>, \<^verbatim>\<open>bail: false\<close>, an empty
  \<^verbatim>\<open>errorMessage\<close> and \<^verbatim>\<open>if: null\<close> is called alone.
\<close>

theorem modifiers_need_truthy_values_witness:
  "dispatch sample_api
     [(''isEmail'', JObj [(''negated'', JBool False), (''bail'', JBool False), (''errorMessage'', JStr []),
                           (''if'', JNull)])]
     ''isEmail'' (check ''email'' [] JUndefined, [])
   = Inr (\<lparr>field_name = ''email'', locations = [], message = JUndefined,
            calls = [ChainMethod ''isEmail'' []]\<rparr>, [])"
  using modifiers_need_truthy_values [of sample_api "''isEmail''"
     "[(''isEmail'', JObj [(''negated'', JBool False), (''bail'', JBool False), (''errorMessage'', JStr []),
                           (''if'', JNull)])]" "check ''email'' [] JUndefined" "[]"]
  by (simp add: sample_api_def dispatch_def chain_invoke_def isValidatorOptions_def get_prop_def
      check_def resolve_options_def)

section \<open>The dispatcher's filter (claims C8 and C10)\<close>

text \<open>
  Claim C8. \<^verbatim>\<open>checkSchema\<close> returns, and in the chain of every schema entry each
  dynamic call of a rule method is for a key that is neither \<^verbatim>\<open>errorMessage\<close> nor
  \<^verbatim>\<open>in\<close> and whose configured value is truthy. The same holds for every warning that
  is printed. So the two reserved keys, and every key with a falsy value, are skipped
  without a call and without a warning.
\<close>

theorem reserved_and_falsy_keys_not_dispatched:
  "\<exists>r console. checkSchema api schema arg = Inr (r, console)
     \<and> list_all2 (\<lambda>entry ch. \<forall>m args. ChainMethod m args \<in> set (calls ch)
                    \<longrightarrow> m \<noteq> ''errorMessage'' \<and> m \<noteq> ''in'' \<and> truthy (get_prop (snd entry) m))
          schema (items r)
     \<and> (\<forall>msg \<in> set console. \<exists>entry \<in> set schema. \<exists>m. msg = warning m
            \<and> m \<noteq> ''errorMessage'' \<and> m \<noteq> ''in'' \<and> truthy (get_prop (snd entry) m))"
proof -
  let ?d = "case arg of None \<Rightarrow> validLocations | Some d \<Rightarrow> d"
  let ?r = "assign_run api (map (compiled_chain api ?d) schema)"
  let ?console = "concat (map (\<lambda>entry. map warning (unknown_names api (snd entry))) schema)"
  have res: "checkSchema api schema arg = Inr (?r, ?console)"
    by (rule checkSchema_eq)
  have calls: "list_all2 (\<lambda>entry ch. \<forall>m args. ChainMethod m args \<in> set (calls ch)
                    \<longrightarrow> m \<noteq> ''errorMessage'' \<and> m \<noteq> ''in'' \<and> truthy (get_prop (snd entry) m))
          schema (items ?r)"
    unfolding assign_run_def
    by (auto simp: list_all2_map2 compiled_chain_methods rule_names_set
        intro!: list_all2_same [THEN iffD2] dest: rule_filter_protected)
  have warns: "\<forall>msg \<in> set ?console. \<exists>entry \<in> set schema. \<exists>m. msg = warning m
            \<and> m \<noteq> ''errorMessage'' \<and> m \<noteq> ''in'' \<and> truthy (get_prop (snd entry) m)"
  proof
    fix msg
    assume "msg \<in> set ?console"
    then obtain entry m where em: "entry \<in> set schema" "m \<in> set (unknown_names api (snd entry))"
      "msg = warning m"
      by auto
    from em(2) have "rule_filter (snd entry) m"
      by (simp add: unknown_names_set)
    with em(1,3) rule_filter_protected [of "snd entry" m]
    show "\<exists>entry \<in> set schema. \<exists>m. msg = warning m
            \<and> m \<noteq> ''errorMessage'' \<and> m \<noteq> ''in'' \<and> truthy (get_prop (snd entry) m)"
      by blast
  qed
  from res calls warns show ?thesis by blast
qed

text \<open>
  A field with both reserved keys, one rule set to \<^verbatim>\<open>true\<close>, and four keys with falsy
  values, one of which (\<^verbatim>\<open>isPrime\<close>) is not even a method of the chain: only the one
  rule is called, and nothing is printed.
\<close>

theorem reserved_and_falsy_keys_not_dispatched_witness:
  "checkSchema sample_api
     [(''age'', [(''in'', JStr ''body''), (''errorMessage'', JStr ''bad age''), (''isInt'', JBool True),
                 (''toInt'', JBool False), (''trim'', JNum 0), (''bail'', JUndefined),
                 (''isPrime'', JNull)])] None
   = Inr (assign_run sample_api
            [\<lparr>field_name = ''age'', locations = [JStr ''body''], message = JStr ''bad age'',
              calls = [ChainMethod ''isInt'' []]\<rparr>], [])"
proof -
  have "checkSchema sample_api
     [(''age'', [(''in'', JStr ''body''), (''errorMessage'', JStr ''bad age''), (''isInt'', JBool True),
                 (''toInt'', JBool False), (''trim'', JNum 0), (''bail'', JUndefined),
                 (''isPrime'', JNull)])] None
   = Inr (assign_run sample_api
            [\<lparr>field_name = ''age'', locations = [JStr ''body''], message = JStr ''bad age'',
              calls = [ChainMethod ''isInt'' []]\<rparr>], [])"
    by (simp add: checkSchema_def field_chain_def dispatch_def chain_invoke_def Let_def
      rule_filter_def object_keys_def get_prop_def protectedNames_def sample_api_def check_def
      isValidatorOptions_def resolve_options_def ensureLocations_def validLocations_def)
  with reserved_and_falsy_keys_not_dispatched [of sample_api
     "[(''age'', [(''in'', JStr ''body''), (''errorMessage'', JStr ''bad age''), (''isInt'', JBool True),
                 (''toInt'', JBool False), (''trim'', JNum 0), (''bail'', JUndefined),
                 (''isPrime'', JNull)])]" None]
  show ?thesis by simp
qed

text \<open>
  Claim C10, as amended. The key \<^verbatim>\<open>optional\<close> is not reserved: it passes the
  dispatcher's filter exactly when its value is truthy, and is then dispatched like any
  rule. Where \<^verbatim>\<open>optional\<close> is a method of the chain, the chain of the field holds the
  dynamic call of \<^verbatim>\<open>optional\<close> with one list of arguments and no other call of it.
  The arguments are those of the common resolution: none for the literal \<^verbatim>\<open>true\<close>;
  for a configuration object, the one argument \<^verbatim>\<open>options\<close> when that value is
  neither a list nor \<^verbatim>\<open>null\<close> nor \<^verbatim>\<open>undefined\<close>, the elements of \<^verbatim>\<open>options\<close>
  when it is a list, and none when \<^verbatim>\<open>options\<close> is absent, \<^verbatim>\<open>undefined\<close> or
  \<^verbatim>\<open>null\<close>. The single dispatch step makes the same call.
\<close>

theorem optional_is_dispatched_as_a_rule:
  "''optional'' \<notin> set protectedNames
   \<and> (rule_filter config ''optional'' \<longleftrightarrow> truthy (get_prop config ''optional''))
   \<and> (''optional'' \<in> set (object_keys config) \<and> truthy (get_prop config ''optional'')
        \<and> has_method api ''optional''
      \<longrightarrow> (\<exists>ch console' expected.
             field_chain api d (fld, config) console = Inr (ch, console')
             \<and> (\<forall>args. ChainMethod ''optional'' args \<in> set (calls ch) \<longleftrightarrow> args = expected)
             \<and> (get_prop config ''optional'' = JBool True \<longrightarrow> expected = [])
             \<and> (\<forall>obj v. get_prop config ''optional'' = JObj obj \<and> get_prop obj ''options'' = v
                    \<and> \<not> isArray v \<and> v \<noteq> JNull \<and> v \<noteq> JUndefined
                  \<longrightarrow> expected = [v])
             \<and> (\<forall>obj xs. get_prop config ''optional'' = JObj obj \<and> get_prop obj ''options'' = JArr xs
                  \<longrightarrow> expected = xs)
             \<and> (\<forall>obj. get_prop config ''optional'' = JObj obj
                    \<and> (''options'' \<notin> set (object_keys obj) \<or> get_prop obj ''options'' = JUndefined
                         \<or> get_prop obj ''options'' = JNull)
                  \<longrightarrow> expected = [])))
   \<and> (has_method api ''optional''
      \<longrightarrow> (\<exists>new expected.
             dispatch api config ''optional'' (ch0, console0)
               = Inr (ch0\<lparr>calls := calls ch0 @ new\<rparr>, console0)
             \<and> (\<forall>n args. ChainMethod n args \<in> set new \<longleftrightarrow> n = ''optional'' \<and> args = expected)
             \<and> (get_prop config ''optional'' = JBool True \<longrightarrow> new = [ChainMethod ''optional'' []])
             \<and> (\<forall>obj v. get_prop config ''optional'' = JObj obj \<and> get_prop obj ''options'' = v
                    \<and> \<not> isArray v \<and> v \<noteq> JNull \<and> v \<noteq> JUndefined
                  \<longrightarrow> expected = [v])
             \<and> (\<forall>obj xs. get_prop config ''optional'' = JObj obj \<and> get_prop obj ''options'' = JArr xs
                  \<longrightarrow> expected = xs)
             \<and> (\<forall>obj. get_prop config ''optional'' = JObj obj
                    \<and> (''options'' \<notin> set (object_keys obj) \<or> get_prop obj ''options'' = JUndefined
                         \<or> get_prop obj ''options'' = JNull)
                  \<longrightarrow> expected = [])))"
proof -
  let ?cfg = "get_prop config ''optional''"
  let ?expected = "resolve_options ?cfg"
  have a: "''optional'' \<notin> set protectedNames"
    by (simp add: protectedNames_def)
  have b: "rule_filter config ''optional'' \<longleftrightarrow> truthy ?cfg"
    by (simp add: rule_filter_def protectedNames_def)
  have lit: "?expected = []" if "?cfg = JBool True"
    using that by (simp add: resolve_options_def)
  have single: "?expected = [v]"
    if "?cfg = JObj obj \<and> get_prop obj ''options'' = v \<and> \<not> isArray v \<and> v \<noteq> JNull \<and> v \<noteq> JUndefined"
    for obj v
    using that by (cases v) (simp_all add: resolve_options_def)
  have spread: "?expected = xs"
    if "?cfg = JObj obj \<and> get_prop obj ''options'' = JArr xs" for obj xs
    using that by (simp add: resolve_options_def)
  have absent: "get_prop obj ''options'' = JUndefined" if "''options'' \<notin> set (object_keys obj)" for obj
    using that by (simp add: get_prop_def object_keys_def map_of_eq_None_iff [THEN iffD2])
  have none: "?expected = []"
    if "?cfg = JObj obj
        \<and> (''options'' \<notin> set (object_keys obj) \<or> get_prop obj ''options'' = JUndefined
             \<or> get_prop obj ''options'' = JNull)" for obj
    using that absent [of obj] by (auto simp: resolve_options_def)
  have c: "\<exists>ch console' expected.
             field_chain api d (fld, config) console = Inr (ch, console')
             \<and> (\<forall>args. ChainMethod ''optional'' args \<in> set (calls ch) \<longleftrightarrow> args = expected)
             \<and> (?cfg = JBool True \<longrightarrow> expected = [])
             \<and> (\<forall>obj v. ?cfg = JObj obj \<and> get_prop obj ''options'' = v
                    \<and> \<not> isArray v \<and> v \<noteq> JNull \<and> v \<noteq> JUndefined
                  \<longrightarrow> expected = [v])
             \<and> (\<forall>obj xs. ?cfg = JObj obj \<and> get_prop obj ''options'' = JArr xs \<longrightarrow> expected = xs)
             \<and> (\<forall>obj. ?cfg = JObj obj
                    \<and> (''options'' \<notin> set (object_keys obj) \<or> get_prop obj ''options'' = JUndefined
                         \<or> get_prop obj ''options'' = JNull)
                  \<longrightarrow> expected = [])"
    if h: "''optional'' \<in> set (object_keys config) \<and> truthy ?cfg \<and> has_method api ''optional''"
  proof -
    let ?ch = "compiled_chain api d (fld, config)"
    have run: "field_chain api d (fld, config) console
                 = Inr (?ch, console @ map warning (unknown_names api (snd (fld, config))))"
      by (rule field_chain_eq)
    have only: "\<forall>args. ChainMethod ''optional'' args \<in> set (calls ?ch) \<longleftrightarrow> args = ?expected"
      using h b by (simp add: compiled_chain_methods rule_names_set)
    from run only lit single spread none show ?thesis by blast
  qed
  have e: "\<exists>new expected.
             dispatch api config ''optional'' (ch0, console0)
               = Inr (ch0\<lparr>calls := calls ch0 @ new\<rparr>, console0)
             \<and> (\<forall>n args. ChainMethod n args \<in> set new \<longleftrightarrow> n = ''optional'' \<and> args = expected)
             \<and> (?cfg = JBool True \<longrightarrow> new = [ChainMethod ''optional'' []])
             \<and> (\<forall>obj v. ?cfg = JObj obj \<and> get_prop obj ''options'' = v
                    \<and> \<not> isArray v \<and> v \<noteq> JNull \<and> v \<noteq> JUndefined
                  \<longrightarrow> expected = [v])
             \<and> (\<forall>obj xs. ?cfg = JObj obj \<and> get_prop obj ''options'' = JArr xs \<longrightarrow> expected = xs)
             \<and> (\<forall>obj. ?cfg = JObj obj
                    \<and> (''options'' \<notin> set (object_keys obj) \<or> get_prop obj ''options'' = JUndefined
                         \<or> get_prop obj ''options'' = JNull)
                  \<longrightarrow> expected = [])"
    if h: "has_method api ''optional''"
  proof -
    let ?new = "rule_calls api config ''optional''"
    have step: "dispatch api config ''optional'' (ch0, console0)
                  = Inr (ch0\<lparr>calls := calls ch0 @ ?new\<rparr>, console0)"
      by (rule dispatch_known [OF h])
    have only: "\<forall>n args. ChainMethod n args \<in> set ?new \<longleftrightarrow> n = ''optional'' \<and> args = ?expected"
      by (simp add: rule_calls_methods)
    have true: "?new = [ChainMethod ''optional'' []]" if "?cfg = JBool True"
      using that by (simp add: rule_calls_def isValidatorOptions_def resolve_options_def)
    from step only true single spread none show ?thesis by blast
  qed
  from a b c e show ?thesis by blast
qed

text \<open>
  \<^verbatim>\<open>optional: { options: { nullable: true } }\<close> calls \<^verbatim>\<open>optional\<close> with the options
  object, and \<^verbatim>\<open>optional: true\<close> calls it with no argument.
\<close>

theorem optional_is_dispatched_as_a_rule_witness:
  "checkSchema sample_api
     [(''nick'', [(''optional'', JObj [(''options'', JObj [(''nullable'', JBool True)])]),
                  (''trim'', JBool True)]),
      (''age'', [(''optional'', JBool True)])] (Some [JStr ''query''])
   = Inr (assign_run sample_api
            [\<lparr>field_name = ''nick'', locations = [JStr ''query''], message = JUndefined,
              calls = [ChainMethod ''optional'' [JObj [(''nullable'', JBool True)]], ChainMethod ''trim'' []]\<rparr>,
             \<lparr>field_name = ''age'', locations = [JStr ''query''], message = JUndefined,
              calls = [ChainMethod ''optional'' []]\<rparr>], [])"
  using optional_is_dispatched_as_a_rule [of "[(''optional'', JBool True)]" sample_api "[JStr ''query'']"
      "''age''" "[]" "check ''age'' [JStr ''query''] JUndefined" "[]"]
  by (simp add: checkSchema_def field_chain_def dispatch_def chain_invoke_def Let_def
      rule_filter_def object_keys_def get_prop_def protectedNames_def sample_api_def check_def
      isValidatorOptions_def resolve_options_def ensureLocations_def validLocations_def)

text \<open>
  Claim C10 as it was stated fails at \<^verbatim>\<open>options: null\<close>, a value that is not a list:
  the entry \<^verbatim>\<open>optional: { options: null }\<close> compiles to the call \<^verbatim>\<open>optional()\<close> with
  no argument, and not to \<^verbatim>\<open>optional(null)\<close>.
\<close>

theorem optional_null_options_pass_no_argument:
  "checkSchema sample_api [(''nick'', [(''optional'', JObj [(''options'', JNull)])])] (Some [JStr ''query''])
   = Inr (assign_run sample_api
            [\<lparr>field_name = ''nick'', locations = [JStr ''query''], message = JUndefined,
              calls = [ChainMethod ''optional'' []]\<rparr>], [])"
  by (simp add: checkSchema_def field_chain_def dispatch_def chain_invoke_def Let_def
      rule_filter_def object_keys_def get_prop_def protectedNames_def sample_api_def check_def
      isValidatorOptions_def resolve_options_def ensureLocations_def validLocations_def)

section \<open>Unknown rules and the batch runner (claims C6 and C7)\<close>

text \<open>
  Claim C6. Let a schema hold, in some field, a rule key (truthy, not reserved) that is
  not a method of the chain. Then \<^verbatim>\<open>checkSchema\<close> does not throw: it returns; the
  warning for that key is printed; no chain holds a call of that key; and the collection
  returned is the one the schema compiles to once its unknown rules are taken out, which
  compiles with no warning.
\<close>

theorem unknown_rule_warned_and_skipped:
  assumes "(fld, config) \<in> set schema"
    and "m \<in> set (object_keys config)"
    and "rule_filter config m"
    and "\<not> has_method api m"
  shows "\<exists>r console. checkSchema api schema arg = Inr (r, console)
     \<and> warning m \<in> set console
     \<and> (\<forall>ch \<in> set (items r). \<forall>args. ChainMethod m args \<notin> set (calls ch))
     \<and> checkSchema api (map (\<lambda>entry. (fst entry, known_rules_only api (snd entry))) schema) arg
         = Inr (r, [])"
proof -
  let ?d = "case arg of None \<Rightarrow> validLocations | Some d \<Rightarrow> d"
  let ?r = "assign_run api (map (compiled_chain api ?d) schema)"
  let ?console = "concat (map (\<lambda>entry. map warning (unknown_names api (snd entry))) schema)"
  have res: "checkSchema api schema arg = Inr (?r, ?console)"
    by (rule checkSchema_eq)
  have "m \<in> set (unknown_names api config)"
    using assms(2-4) by (simp add: unknown_names_set)
  with assms(1) have warn: "warning m \<in> set ?console"
    by force
  have skip: "\<forall>ch \<in> set (items ?r). \<forall>args. ChainMethod m args \<notin> set (calls ch)"
    using assms(4) by (auto simp: assign_run_def compiled_chain_methods rule_names_set)
  have rest: "checkSchema api (map (\<lambda>entry. (fst entry, known_rules_only api (snd entry))) schema) arg
         = Inr (?r, [])"
    by (simp add: checkSchema_eq unknown_names_known comp_def compiled_chain_known)
  from res warn skip rest show ?thesis by blast
qed

text \<open>
  The unknown rule \<^verbatim>\<open>isPrime\<close> between two known ones, in the first of two fields: one
  warning, and every other rule of both fields compiled.
\<close>

theorem unknown_rule_warned_and_skipped_witness:
  "checkSchema sample_api
     [(''age'', [(''isInt'', JBool True), (''isPrime'', JBool True), (''toInt'', JBool True)]),
      (''nick'', [(''trim'', JBool True)])] None
   = Inr (assign_run sample_api
            [\<lparr>field_name = ''age'', locations = validLocations, message = JUndefined,
              calls = [ChainMethod ''isInt'' [], ChainMethod ''toInt'' []]\<rparr>,
             \<lparr>field_name = ''nick'', locations = validLocations, message = JUndefined,
              calls = [ChainMethod ''trim'' []]\<rparr>],
          [''express-validator: a validator/sanitizer with name isPrime does not exist''])"
proof -
  have "checkSchema sample_api
     [(''age'', [(''isInt'', JBool True), (''isPrime'', JBool True), (''toInt'', JBool True)]),
      (''nick'', [(''trim'', JBool True)])] None
   = Inr (assign_run sample_api
            [\<lparr>field_name = ''age'', locations = validLocations, message = JUndefined,
              calls = [ChainMethod ''isInt'' [], ChainMethod ''toInt'' []]\<rparr>,
             \<lparr>field_name = ''nick'', locations = validLocations, message = JUndefined,
              calls = [ChainMethod ''trim'' []]\<rparr>],
          [''express-validator: a validator/sanitizer with name isPrime does not exist''])"
    by (simp add: checkSchema_def field_chain_def dispatch_def chain_invoke_def Let_def warning_def
      rule_filter_def object_keys_def get_prop_def protectedNames_def sample_api_def check_def
      isValidatorOptions_def resolve_options_def ensureLocations_def validLocations_def)
  with unknown_rule_warned_and_skipped [of "''age''"
      "[(''isInt'', JBool True), (''isPrime'', JBool True), (''toInt'', JBool True)]"
      "[(''age'', [(''isInt'', JBool True), (''isPrime'', JBool True), (''toInt'', JBool True)]),
        (''nick'', [(''trim'', JBool True)])]" "''isPrime''" sample_api None]
  show ?thesis by simp
qed



end
